theory Spec2Isabelle
  imports Complex_Main
begin

section \<open>Entities\<close>

text \<open>
  The entity package: \<^verbatim>\<open>entity/event.go\<close> and the ticket entity file. Only the columns
  that the ticket service reads or writes are kept. Go's \<^verbatim>\<open>int\<close> columns are integers;
  the only arithmetic on them is done by the database (\<^verbatim>\<open>available - ?\<close>,
  \<^verbatim>\<open>available + ?\<close>), which is exact or fails, and a failing storage call is
  covered by the fault oracle below. \<^verbatim>\<open>float64\<close> prices are idealised as reals, so
  \<open>*\<close> on prices stands for the source's floating-point product. A \<^verbatim>\<open>time.Time\<close> is
  the number of nanoseconds since the zero time.
\<close>

type_synonym time = int

definition Hour :: time where
  "Hour = 3600000000000"

definition Before :: "time \<Rightarrow> time \<Rightarrow> bool" where
  "Before t u = (t < u)"

definition IsZero :: "time \<Rightarrow> bool" where
  "IsZero t = (t = 0)"

datatype EventStatus =
  EventStatusActive | EventStatusOngoing | EventStatusCompleted | EventStatusCancelled

datatype TicketStatus =
  TicketStatusActive | TicketStatusUsed | TicketStatusCancelled | TicketStatusExpired

record user =
  User_ID :: string
  IsActive :: bool

record event =
  Event_ID :: string
  Capacity :: int
  Available :: int
  Price :: real
  EventDate :: time
  Event_Status :: EventStatus

record ticket =
  Ticket_ID :: string
  UserID :: string
  EventID :: string
  Quantity :: int
  TotalPrice :: real
  Ticket_Status :: TicketStatus
  PurchaseDate :: time

record BuyTicketRequest =
  req_EventID :: string
  req_Quantity :: int

record UpdateTicketStatusRequest =
  req_Status :: TicketStatus

text \<open>\<^verbatim>\<open>func (e *Event) IsAvailable() bool\<close>\<close>

definition IsAvailable :: "event \<Rightarrow> bool" where
  "IsAvailable e = (Available e > 0 \<and> Event_Status e = EventStatusActive)"

text \<open>\<^verbatim>\<open>func (t *Ticket) CanBeCancelled() bool\<close>\<close>

definition CanBeCancelled :: "ticket \<Rightarrow> bool" where
  "CanBeCancelled t = (Ticket_Status t = TicketStatusActive)"

text \<open>
  \<^verbatim>\<open>func (t *Ticket) BeforeCreate\<close>: an empty ID is replaced by a fresh UUID and a zero
  purchase date by the clock reading of the hook.
\<close>

definition BeforeCreate :: "string \<Rightarrow> time \<Rightarrow> ticket \<Rightarrow> ticket" where
  "BeforeCreate fresh now t =
     (let t1 = (if Ticket_ID t = [] then t\<lparr>Ticket_ID := fresh\<rparr> else t)
      in if IsZero (PurchaseDate t1) then t1\<lparr>PurchaseDate := now\<rparr> else t1)"

section \<open>Storage\<close>

text \<open>
  The database is three tables of rows. Every storage call of the source may fail; which
  ones do is decided by an oracle \<open>fails\<close> over the call sites. The environment of a
  service call also fixes the UUID that \<^verbatim>\<open>uuid.New()\<close> produces and the readings of
  \<^verbatim>\<open>time.Now()\<close>: \<open>now1\<close> is the reading compared with the event date, \<open>now2\<close> the
  one stored as purchase date, \<open>now3\<close> the one taken in the \<^verbatim>\<open>BeforeCreate\<close> hook. Service calls are modelled one at a time, each from the
  database the previous one left. The one interleaving of two calls that is modelled is
  that of the purchase without transaction, whose steps are separate repository calls.
\<close>

record db =
  users :: "user list"
  events :: "event list"
  tickets :: "ticket list"

datatype db_call =
  TxBegin | TxCommit
  | UserGetByID
  | EventFirst | EventGetByID | EventUpdateColumn
  | TicketFirst | TicketGetByID | TicketCreate | TicketSave
  | TicketUpdate | TicketRevert | TicketDelete

datatype error =
  ErrRecordNotFound
  | ErrDuplicatedKey
  | ErrStorage db_call
  | ErrUserNotActive
  | ErrEventNotAvailable
  | ErrInsufficientTickets
  | ErrPurchaseTooLate
  | ErrNotOwner
  | ErrNotCancellable
  | ErrCancelTooLate
  | ErrCancelledTicket
  | ErrUsedNotActive

text \<open>The text of each error built with \<^verbatim>\<open>errors.New\<close> in the ticket service.\<close>

fun Error :: "error \<Rightarrow> string" where
  "Error ErrRecordNotFound = ''record not found''"
| "Error ErrDuplicatedKey = ''duplicated key not allowed''"
| "Error (ErrStorage c) = ''storage failure''"
| "Error ErrUserNotActive = ''user account is not active''"
| "Error ErrEventNotAvailable = ''event is not available for booking''"
| "Error ErrInsufficientTickets = ''insufficient tickets available''"
| "Error ErrPurchaseTooLate = ''cannot purchase tickets for events starting within an hour''"
| "Error ErrNotOwner = ''you can only cancel your own tickets''"
| "Error ErrNotCancellable = ''ticket cannot be cancelled''"
| "Error ErrCancelTooLate = ''cannot cancel tickets within 2 hours of event start''"
| "Error ErrCancelledTicket = ''cannot update cancelled ticket''"
| "Error ErrUsedNotActive = ''can only mark active tickets as used''"

record env =
  fails :: "db_call \<Rightarrow> bool"
  uuid :: string
  now1 :: time
  now2 :: time
  now3 :: time

text \<open>\<^verbatim>\<open>Where("id = ?", id).First(&row)\<close> on each table, at call site \<open>c\<close>.\<close>

definition First_user :: "env \<Rightarrow> db_call \<Rightarrow> string \<Rightarrow> db \<Rightarrow> error + user" where
  "First_user ev c uid s =
     (if fails ev c then Inl (ErrStorage c)
      else case find (\<lambda>u. User_ID u = uid) (users s) of
             None \<Rightarrow> Inl ErrRecordNotFound
           | Some u \<Rightarrow> Inr u)"

definition First_event :: "env \<Rightarrow> db_call \<Rightarrow> string \<Rightarrow> db \<Rightarrow> error + event" where
  "First_event ev c eid s =
     (if fails ev c then Inl (ErrStorage c)
      else case find (\<lambda>e. Event_ID e = eid) (events s) of
             None \<Rightarrow> Inl ErrRecordNotFound
           | Some e \<Rightarrow> Inr e)"

definition First_ticket :: "env \<Rightarrow> db_call \<Rightarrow> string \<Rightarrow> db \<Rightarrow> error + ticket" where
  "First_ticket ev c tid s =
     (if fails ev c then Inl (ErrStorage c)
      else case find (\<lambda>t. Ticket_ID t = tid) (tickets s) of
             None \<Rightarrow> Inl ErrRecordNotFound
           | Some t \<Rightarrow> Inr t)"

text \<open>
  The column defaults that an insert applies. \<^verbatim>\<open>Quantity\<close> is declared
  \<^verbatim>\<open>gorm:"not null;default:1"\<close>: a ticket whose quantity is the zero value is written,
  and handed back, with quantity 1. The status column has a default as well, which never
  applies to the tickets the service builds, since they carry a status.
\<close>

definition column_defaults :: "ticket \<Rightarrow> ticket" where
  "column_defaults t = (if Quantity t = 0 then t\<lparr>Quantity := 1\<rparr> else t)"

text \<open>
  \<^verbatim>\<open>Create(ticket)\<close>: runs the \<^verbatim>\<open>BeforeCreate\<close> hook, fills in the column defaults
  and inserts the row; the primary key rejects an ID that is already present. The ticket
  is returned as it was written, as the source reads \<^verbatim>\<open>ticket.ID\<close> afterwards.
\<close>

definition Create_ticket :: "env \<Rightarrow> ticket \<Rightarrow> db \<Rightarrow> error + (ticket \<times> db)" where
  "Create_ticket ev t s =
     (if fails ev TicketCreate then Inl (ErrStorage TicketCreate)
      else let t' = column_defaults (BeforeCreate (uuid ev) (now3 ev) t) in
        if Ticket_ID t' \<in> set (map Ticket_ID (tickets s)) then Inl ErrDuplicatedKey
        else Inr (t', s\<lparr>tickets := tickets s @ [t']\<rparr>))"

text \<open>
  \<^verbatim>\<open>Save(ticket)\<close>: writes all columns of the row with the ticket's primary key, and
  inserts the row when there is none.
\<close>

definition Save_ticket :: "env \<Rightarrow> db_call \<Rightarrow> ticket \<Rightarrow> db \<Rightarrow> error + db" where
  "Save_ticket ev c t s =
     (if fails ev c then Inl (ErrStorage c)
      else if Ticket_ID t \<in> set (map Ticket_ID (tickets s))
        then Inr (s\<lparr>tickets := map (\<lambda>r. if Ticket_ID r = Ticket_ID t then t else r) (tickets s)\<rparr>)
        else Inr (s\<lparr>tickets := tickets s @ [t]\<rparr>))"

text \<open>\<^verbatim>\<open>Delete(&entity.Ticket{}, "id = ?", id)\<close>\<close>

definition Delete_ticket :: "env \<Rightarrow> string \<Rightarrow> db \<Rightarrow> error + db" where
  "Delete_ticket ev tid s =
     (if fails ev TicketDelete then Inl (ErrStorage TicketDelete)
      else Inr (s\<lparr>tickets := filter (\<lambda>r. Ticket_ID r \<noteq> tid) (tickets s)\<rparr>))"

text \<open>
  \<^verbatim>\<open>Model(&entity.Event{}).Where("id = ?", id).UpdateColumn("available", expr)\<close>: the
  expression is applied to the column of every row that matches; matching no row is not
  an error.
\<close>

definition UpdateColumn_available :: "env \<Rightarrow> string \<Rightarrow> (int \<Rightarrow> int) \<Rightarrow> db \<Rightarrow> error + db" where
  "UpdateColumn_available ev eid f s =
     (if fails ev EventUpdateColumn then Inl (ErrStorage EventUpdateColumn)
      else Inr (s\<lparr>events :=
        map (\<lambda>e. if Event_ID e = eid then e\<lparr>Available := f (Available e)\<rparr> else e) (events s)\<rparr>))"

text \<open>
  \<^verbatim>\<open>db.Transaction(func(tx) error {...})\<close>: the body's writes are kept only when the
  body returns no error and the commit succeeds; otherwise the database is as before.
\<close>

definition Transaction :: "env \<Rightarrow> (db \<Rightarrow> (error + 'a) \<times> db) \<Rightarrow> db \<Rightarrow> (error + 'a) \<times> db" where
  "Transaction ev body s =
     (if fails ev TxBegin then (Inl (ErrStorage TxBegin), s)
      else case body s of
             (Inl e, _) \<Rightarrow> (Inl e, s)
           | (Inr x, s') \<Rightarrow>
               if fails ev TxCommit then (Inl (ErrStorage TxCommit), s) else (Inr x, s'))"

section \<open>Repositories\<close>

text \<open>\<^verbatim>\<open>eventRepository.UpdateAvailableTickets(eventID, quantity)\<close>\<close>

definition UpdateAvailableTickets :: "env \<Rightarrow> string \<Rightarrow> int \<Rightarrow> db \<Rightarrow> error option \<times> db" where
  "UpdateAvailableTickets ev eventID quantity s =
     (case UpdateColumn_available ev eventID (\<lambda>available. available - quantity) s of
        Inl e \<Rightarrow> (Some e, s)
      | Inr s' \<Rightarrow> (None, s'))"

text \<open>
  \<^verbatim>\<open>ticketRepository.GetByID\<close>, which \<^verbatim>\<open>ticketService.GetTicketByID\<close> forwards to.
  The preloaded user and event are presentation only and not part of the row.
\<close>

definition GetTicketByID :: "env \<Rightarrow> string \<Rightarrow> db \<Rightarrow> error + ticket" where
  "GetTicketByID ev tid s = First_ticket ev TicketGetByID tid s"

section \<open>Ticket service, transactional variant\<close>

definition BuyTicket_tx :: "env \<Rightarrow> string \<Rightarrow> BuyTicketRequest \<Rightarrow> db \<Rightarrow> (error + ticket) \<times> db" where
  "BuyTicket_tx ev userID req s =
     (case First_user ev UserGetByID userID s of
        Inl e \<Rightarrow> (Inl e, s)
      | Inr u \<Rightarrow>
        (if \<not> IsActive u then (Inl ErrUserNotActive, s)
         else (case First_event ev EventFirst (req_EventID req) s of
           Inl e \<Rightarrow> (Inl e, s)
         | Inr e \<Rightarrow>
           (if \<not> IsAvailable e then (Inl ErrEventNotAvailable, s)
            else if Available e < req_Quantity req then (Inl ErrInsufficientTickets, s)
            else if Before (EventDate e) (now1 ev + Hour) then (Inl ErrPurchaseTooLate, s)
            else
              (let totalPrice = Price e * of_int (req_Quantity req);
                   t = \<lparr>Ticket_ID = [], UserID = userID, EventID = req_EventID req,
                        Quantity = req_Quantity req, TotalPrice = totalPrice,
                        Ticket_Status = TicketStatusActive, PurchaseDate = now2 ev\<rparr>
               in (case Create_ticket ev t s of
                     Inl e \<Rightarrow> (Inl e, s)
                   | Inr (t', s1) \<Rightarrow>
                       (case UpdateColumn_available ev (req_EventID req)
                               (\<lambda>available. available - req_Quantity req) s1 of
                          Inl e \<Rightarrow> (Inl e, s1)
                        | Inr s2 \<Rightarrow> (Inr t', s2))))))))"

definition BuyTicket :: "env \<Rightarrow> string \<Rightarrow> BuyTicketRequest \<Rightarrow> db \<Rightarrow> (error + ticket) \<times> db" where
  "BuyTicket ev userID req s =
     (case Transaction ev (BuyTicket_tx ev userID req) s of
        (Inl e, s') \<Rightarrow> (Inl e, s')
      | (Inr t, s') \<Rightarrow> (GetTicketByID ev (Ticket_ID t) s', s'))"

definition UpdateTicketStatus ::
  "env \<Rightarrow> string \<Rightarrow> UpdateTicketStatusRequest \<Rightarrow> db \<Rightarrow> (error + ticket) \<times> db" where
  "UpdateTicketStatus ev ticketID req s =
     (case GetTicketByID ev ticketID s of
        Inl e \<Rightarrow> (Inl e, s)
      | Inr t \<Rightarrow>
        (if Ticket_Status t = TicketStatusCancelled then (Inl ErrCancelledTicket, s)
         else if req_Status req = TicketStatusUsed \<and> Ticket_Status t \<noteq> TicketStatusActive
           then (Inl ErrUsedNotActive, s)
         else
           (let t' = t\<lparr>Ticket_Status := req_Status req\<rparr>
            in (case Save_ticket ev TicketUpdate t' s of
                  Inl e \<Rightarrow> (Inl e, s)
                | Inr s' \<Rightarrow> (Inr t', s')))))"

definition CancelTicket_tx :: "env \<Rightarrow> string \<Rightarrow> string \<Rightarrow> db \<Rightarrow> (error + ticket) \<times> db" where
  "CancelTicket_tx ev ticketID userID s =
     (case First_ticket ev TicketFirst ticketID s of
        Inl e \<Rightarrow> (Inl e, s)
      | Inr t \<Rightarrow>
        (if UserID t \<noteq> userID then (Inl ErrNotOwner, s)
         else if \<not> CanBeCancelled t then (Inl ErrNotCancellable, s)
         else (case First_event ev EventFirst (EventID t) s of
           Inl e \<Rightarrow> (Inl e, s)
         | Inr e \<Rightarrow>
           (if Before (EventDate e) (now1 ev + 2 * Hour) then (Inl ErrCancelTooLate, s)
            else
              (let t' = t\<lparr>Ticket_Status := TicketStatusCancelled\<rparr>
               in (case Save_ticket ev TicketSave t' s of
                     Inl e \<Rightarrow> (Inl e, s)
                   | Inr s1 \<Rightarrow>
                       (case UpdateColumn_available ev (EventID t')
                               (\<lambda>available. available + Quantity t') s1 of
                          Inl e \<Rightarrow> (Inl e, s1)
                        | Inr s2 \<Rightarrow> (Inr t', s2))))))))"

definition CancelTicket :: "env \<Rightarrow> string \<Rightarrow> string \<Rightarrow> db \<Rightarrow> (error + ticket) \<times> db" where
  "CancelTicket ev ticketID userID s = Transaction ev (CancelTicket_tx ev ticketID userID) s"

section \<open>Ticket service, variant without transaction\<close>

text \<open>
  The second \<^verbatim>\<open>ticketService\<close> of the source goes through the repositories, with a
  compensating write when the capacity update fails. The error of the compensating call
  is dropped by the source, so a failing compensation leaves the database as it was
  before the compensation.
\<close>

definition BuyTicket_unlocked ::
  "env \<Rightarrow> string \<Rightarrow> BuyTicketRequest \<Rightarrow> db \<Rightarrow> (error + ticket) \<times> db" where
  "BuyTicket_unlocked ev userID req s =
     (case First_user ev UserGetByID userID s of
        Inl e \<Rightarrow> (Inl e, s)
      | Inr u \<Rightarrow>
        (if \<not> IsActive u then (Inl ErrUserNotActive, s)
         else (case First_event ev EventGetByID (req_EventID req) s of
           Inl e \<Rightarrow> (Inl e, s)
         | Inr e \<Rightarrow>
           (if \<not> IsAvailable e then (Inl ErrEventNotAvailable, s)
            else if Available e < req_Quantity req then (Inl ErrInsufficientTickets, s)
            else if Before (EventDate e) (now1 ev + Hour) then (Inl ErrPurchaseTooLate, s)
            else
              (let totalPrice = Price e * of_int (req_Quantity req);
                   t = \<lparr>Ticket_ID = [], UserID = userID, EventID = req_EventID req,
                        Quantity = req_Quantity req, TotalPrice = totalPrice,
                        Ticket_Status = TicketStatusActive, PurchaseDate = now2 ev\<rparr>
               in (case Create_ticket ev t s of
                     Inl e \<Rightarrow> (Inl e, s)
                   | Inr (t', s1) \<Rightarrow>
                       (case UpdateAvailableTickets ev (req_EventID req) (req_Quantity req) s1 of
                          (Some e, s2) \<Rightarrow>
                            (Inl e, (case Delete_ticket ev (Ticket_ID t') s2 of
                                       Inl _ \<Rightarrow> s2
                                     | Inr s3 \<Rightarrow> s3))
                        | (None, s2) \<Rightarrow> (GetTicketByID ev (Ticket_ID t') s2, s2))))))))"

text \<open>
  This purchase is a sequence of separate repository calls, so calls of two requests can
  interleave between them. Its reads and checks, up to the ticket it builds, and its
  writes from \<^verbatim>\<open>ticketRepo.Create\<close> on, are written out as the two halves of
  \<open>BuyTicket_unlocked\<close>; \<open>BuyTicket_unlocked_interleaved\<close> is the run of two requests
  in which both have finished their reads before either writes.
\<close>

definition BuyTicket_unlocked_check ::
  "env \<Rightarrow> string \<Rightarrow> BuyTicketRequest \<Rightarrow> db \<Rightarrow> error + ticket" where
  "BuyTicket_unlocked_check ev userID req s =
     (case First_user ev UserGetByID userID s of
        Inl e \<Rightarrow> Inl e
      | Inr u \<Rightarrow>
        (if \<not> IsActive u then Inl ErrUserNotActive
         else (case First_event ev EventGetByID (req_EventID req) s of
           Inl e \<Rightarrow> Inl e
         | Inr e \<Rightarrow>
           (if \<not> IsAvailable e then Inl ErrEventNotAvailable
            else if Available e < req_Quantity req then Inl ErrInsufficientTickets
            else if Before (EventDate e) (now1 ev + Hour) then Inl ErrPurchaseTooLate
            else
              (let totalPrice = Price e * of_int (req_Quantity req)
               in Inr \<lparr>Ticket_ID = [], UserID = userID, EventID = req_EventID req,
                        Quantity = req_Quantity req, TotalPrice = totalPrice,
                        Ticket_Status = TicketStatusActive, PurchaseDate = now2 ev\<rparr>)))))"

definition BuyTicket_unlocked_write ::
  "env \<Rightarrow> BuyTicketRequest \<Rightarrow> ticket \<Rightarrow> db \<Rightarrow> (error + ticket) \<times> db" where
  "BuyTicket_unlocked_write ev req t s =
     (case Create_ticket ev t s of
        Inl e \<Rightarrow> (Inl e, s)
      | Inr (t', s1) \<Rightarrow>
          (case UpdateAvailableTickets ev (req_EventID req) (req_Quantity req) s1 of
             (Some e, s2) \<Rightarrow>
               (Inl e, (case Delete_ticket ev (Ticket_ID t') s2 of
                          Inl _ \<Rightarrow> s2
                        | Inr s3 \<Rightarrow> s3))
           | (None, s2) \<Rightarrow> (GetTicketByID ev (Ticket_ID t') s2, s2)))"

definition BuyTicket_unlocked_interleaved ::
  "env \<Rightarrow> string \<Rightarrow> BuyTicketRequest \<Rightarrow> env \<Rightarrow> string \<Rightarrow> BuyTicketRequest \<Rightarrow> db
     \<Rightarrow> ((error + ticket) \<times> (error + ticket)) \<times> db" where
  "BuyTicket_unlocked_interleaved evA userA reqA evB userB reqB s =
     (let checkedA = BuyTicket_unlocked_check evA userA reqA s;
          checkedB = BuyTicket_unlocked_check evB userB reqB s;
          (resultA, s1) = (case checkedA of
                             Inl e \<Rightarrow> (Inl e, s)
                           | Inr t \<Rightarrow> BuyTicket_unlocked_write evA reqA t s);
          (resultB, s2) = (case checkedB of
                             Inl e \<Rightarrow> (Inl e, s1)
                           | Inr t \<Rightarrow> BuyTicket_unlocked_write evB reqB t s1)
      in ((resultA, resultB), s2))"

definition UpdateTicketStatus_unlocked ::
  "env \<Rightarrow> string \<Rightarrow> UpdateTicketStatusRequest \<Rightarrow> db \<Rightarrow> (error + ticket) \<times> db" where
  "UpdateTicketStatus_unlocked ev ticketID req s =
     (case GetTicketByID ev ticketID s of
        Inl e \<Rightarrow> (Inl e, s)
      | Inr t \<Rightarrow>
        (if Ticket_Status t = TicketStatusCancelled then (Inl ErrCancelledTicket, s)
         else if req_Status req = TicketStatusUsed \<and> Ticket_Status t \<noteq> TicketStatusActive
           then (Inl ErrUsedNotActive, s)
         else
           (let t' = t\<lparr>Ticket_Status := req_Status req\<rparr>
            in (case Save_ticket ev TicketUpdate t' s of
                  Inl e \<Rightarrow> (Inl e, s)
                | Inr s' \<Rightarrow> (Inr t', s')))))"

definition CancelTicket_unlocked :: "env \<Rightarrow> string \<Rightarrow> string \<Rightarrow> db \<Rightarrow> (error + ticket) \<times> db" where
  "CancelTicket_unlocked ev ticketID userID s =
     (case GetTicketByID ev ticketID s of
        Inl e \<Rightarrow> (Inl e, s)
      | Inr t \<Rightarrow>
        (if UserID t \<noteq> userID then (Inl ErrNotOwner, s)
         else if \<not> CanBeCancelled t then (Inl ErrNotCancellable, s)
         else (case First_event ev EventGetByID (EventID t) s of
           Inl e \<Rightarrow> (Inl e, s)
         | Inr e \<Rightarrow>
           (if Before (EventDate e) (now1 ev + 2 * Hour) then (Inl ErrCancelTooLate, s)
            else
              (let t' = t\<lparr>Ticket_Status := TicketStatusCancelled\<rparr>
               in (case Save_ticket ev TicketUpdate t' s of
                     Inl e \<Rightarrow> (Inl e, s)
                   | Inr s1 \<Rightarrow>
                       (case UpdateAvailableTickets ev (EventID t') (- Quantity t') s1 of
                          (Some e, s2) \<Rightarrow>
                            (Inl e,
                             (case Save_ticket ev TicketRevert
                                     (t'\<lparr>Ticket_Status := TicketStatusActive\<rparr>) s2 of
                                Inl _ \<Rightarrow> s2
                              | Inr s3 \<Rightarrow> s3))
                        | (None, s2) \<Rightarrow> (Inr t', s2))))))))"

section \<open>Capacity accounting\<close>

text \<open>
  The units of an event held by tickets: the quantities of its tickets whose status is
  active or used. An event's row is conserved when available plus held is its capacity.
\<close>

definition holds_capacity :: "ticket \<Rightarrow> bool" where
  "holds_capacity t =
     (Ticket_Status t = TicketStatusActive \<or> Ticket_Status t = TicketStatusUsed)"

definition held :: "db \<Rightarrow> string \<Rightarrow> int" where
  "held s eid =
     sum_list (map Quantity (filter (\<lambda>t. EventID t = eid \<and> holds_capacity t) (tickets s)))"

definition conserved :: "db \<Rightarrow> bool" where
  "conserved s = list_all (\<lambda>e. Available e + held s (Event_ID e) = Capacity e) (events s)"

text \<open>
  The units of event \<open>eid\<close> that one ticket holds, and the primary key of the ticket
  table.
\<close>

definition units :: "string \<Rightarrow> ticket \<Rightarrow> int" where
  "units eid t = (if EventID t = eid \<and> holds_capacity t then Quantity t else 0)"

definition unique_ticket_ids :: "db \<Rightarrow> bool" where
  "unique_ticket_ids s = distinct (map Ticket_ID (tickets s))"

text \<open>The row of an event, and its available column, as a lookup by ID.\<close>

definition event_row :: "db \<Rightarrow> string \<Rightarrow> event option" where
  "event_row s eid = find (\<lambda>e. Event_ID e = eid) (events s)"

definition ticket_row :: "db \<Rightarrow> string \<Rightarrow> ticket option" where
  "ticket_row s tid = find (\<lambda>t. Ticket_ID t = tid) (tickets s)"

definition user_row :: "db \<Rightarrow> string \<Rightarrow> user option" where
  "user_row s uid = find (\<lambda>u. User_ID u = uid) (users s)"

definition available_of :: "db \<Rightarrow> string \<Rightarrow> int option" where
  "available_of s eid = map_option Available (event_row s eid)"

text \<open>An environment in which no storage call fails.\<close>

definition no_fault :: "env \<Rightarrow> bool" where
  "no_fault ev = (\<forall>c. \<not> fails ev c)"

text \<open>
  The row that a successful purchase inserts, and the effect of a capacity update on the
  event table, written once for the statements below. The purchase date is the reading
  of \<^verbatim>\<open>time.Now()\<close> taken when the ticket is built; the hook's reading replaces it
  only if it is the zero time. The quantity is the requested one, or the column default 1
  when the request says 0.
\<close>

definition new_ticket :: "env \<Rightarrow> string \<Rightarrow> BuyTicketRequest \<Rightarrow> event \<Rightarrow> ticket" where
  "new_ticket ev userID req e =
     \<lparr>Ticket_ID = uuid ev, UserID = userID, EventID = req_EventID req,
      Quantity = (if req_Quantity req = 0 then 1 else req_Quantity req),
      TotalPrice = Price e * of_int (req_Quantity req),
      Ticket_Status = TicketStatusActive,
      PurchaseDate = (if IsZero (now2 ev) then now3 ev else now2 ev)\<rparr>"

definition adjust :: "string \<Rightarrow> int \<Rightarrow> event list \<Rightarrow> event list" where
  "adjust eid d es =
     map (\<lambda>e. if Event_ID e = eid then e\<lparr>Available := Available e + d\<rparr> else e) es"

section \<open>Example data\<close>

text \<open>
  One active user, one active event of capacity 10 at price 50, and no tickets. In
  \<open>env0\<close> no storage call fails, the clock reads three hours before the event and the
  next UUID is \<open>t1\<close>; \<open>env_late\<close> is the same one hour before the event.
\<close>

definition env0 :: env where
  "env0 = \<lparr>fails = (\<lambda>c. False), uuid = ''t1'', now1 = Hour, now2 = Hour, now3 = Hour\<rparr>"

definition env_late :: env where
  "env_late =
     \<lparr>fails = (\<lambda>c. False), uuid = ''t2'', now1 = 3 * Hour, now2 = 3 * Hour, now3 = 3 * Hour\<rparr>"

definition e1 :: event where
  "e1 = \<lparr>Event_ID = ''e1'', Capacity = 10, Available = 10, Price = 50,
          EventDate = 4 * Hour, Event_Status = EventStatusActive\<rparr>"

definition s0 :: db where
  "s0 = \<lparr>users = [\<lparr>User_ID = ''u1'', IsActive = True\<rparr>], events = [e1], tickets = []\<rparr>"

definition buy3 :: BuyTicketRequest where
  "buy3 = \<lparr>req_EventID = ''e1'', req_Quantity = 3\<rparr>"

text \<open>The ticket and the database after user \<open>u1\<close> bought three units in \<open>s0\<close>.\<close>

definition t1 :: ticket where
  "t1 = \<lparr>Ticket_ID = ''t1'', UserID = ''u1'', EventID = ''e1'', Quantity = 3,
          TotalPrice = 150, Ticket_Status = TicketStatusActive, PurchaseDate = Hour\<rparr>"

definition s1 :: db where
  "s1 = \<lparr>users = [\<lparr>User_ID = ''u1'', IsActive = True\<rparr>],
         events = [e1\<lparr>Available := 7\<rparr>], tickets = [t1]\<rparr>"

text \<open>
  The database after that ticket was cancelled by its owner (\<open>s2\<close>), after it was
  marked used (\<open>s_used\<close>), and with the ticket cancelled but the units not returned
  (\<open>s_leak\<close>).
\<close>

definition s2 :: db where
  "s2 = \<lparr>users = [\<lparr>User_ID = ''u1'', IsActive = True\<rparr>], events = [e1],
         tickets = [t1\<lparr>Ticket_Status := TicketStatusCancelled\<rparr>]\<rparr>"

definition s_used :: db where
  "s_used = \<lparr>users = [\<lparr>User_ID = ''u1'', IsActive = True\<rparr>],
         events = [e1\<lparr>Available := 7\<rparr>],
         tickets = [t1\<lparr>Ticket_Status := TicketStatusUsed\<rparr>]\<rparr>"

definition s_leak :: db where
  "s_leak = \<lparr>users = [\<lparr>User_ID = ''u1'', IsActive = True\<rparr>],
         events = [e1\<lparr>Available := 7\<rparr>],
         tickets = [t1\<lparr>Ticket_Status := TicketStatusCancelled\<rparr>]\<rparr>"

text \<open>
  Two purchases of 6 units by the same user, the second with the next UUID \<open>t2\<close>: the
  tickets they create, the database after the first alone (\<open>s_first\<close>) or the second
  alone (\<open>s_first_b\<close>), and the database in which both were applied.
\<close>

definition env0b :: env where
  "env0b = env0\<lparr>uuid := ''t2''\<rparr>"

definition buy6 :: BuyTicketRequest where
  "buy6 = \<lparr>req_EventID = ''e1'', req_Quantity = 6\<rparr>"

definition t6a :: ticket where
  "t6a = \<lparr>Ticket_ID = ''t1'', UserID = ''u1'', EventID = ''e1'', Quantity = 6,
           TotalPrice = 300, Ticket_Status = TicketStatusActive, PurchaseDate = Hour\<rparr>"

definition t6b :: ticket where
  "t6b = t6a\<lparr>Ticket_ID := ''t2''\<rparr>"

definition s_first :: db where
  "s_first = \<lparr>users = [\<lparr>User_ID = ''u1'', IsActive = True\<rparr>],
              events = [e1\<lparr>Available := 4\<rparr>], tickets = [t6a]\<rparr>"

definition s_first_b :: db where
  "s_first_b = s_first\<lparr>tickets := [t6b]\<rparr>"

definition s_oversold :: db where
  "s_oversold = \<lparr>users = [\<lparr>User_ID = ''u1'', IsActive = True\<rparr>],
                 events = [e1\<lparr>Available := - 2\<rparr>], tickets = [t6a, t6b]\<rparr>"

text \<open>
  A request for quantity 0, the ticket it creates (quantity 1 by the column default) and
  the database it leaves.
\<close>

definition buy0 :: BuyTicketRequest where
  "buy0 = \<lparr>req_EventID = ''e1'', req_Quantity = 0\<rparr>"

definition t_default :: ticket where
  "t_default = \<lparr>Ticket_ID = ''t1'', UserID = ''u1'', EventID = ''e1'', Quantity = 1,
                 TotalPrice = 0, Ticket_Status = TicketStatusActive, PurchaseDate = Hour\<rparr>"

definition s_default :: db where
  "s_default = \<lparr>users = [\<lparr>User_ID = ''u1'', IsActive = True\<rparr>],
                events = [e1], tickets = [t_default]\<rparr>"

text \<open>The two requests the status endpoint declares.\<close>

definition cancel_req :: UpdateTicketStatusRequest where
  "cancel_req = \<lparr>req_Status = TicketStatusCancelled\<rparr>"

definition used_req :: UpdateTicketStatusRequest where
  "used_req = \<lparr>req_Status = TicketStatusUsed\<rparr>"

text \<open>
  Environments with a failing storage call: the read after the commit; the capacity update
  together with the compensating delete; the capacity update together with the
  compensating status write.
\<close>

definition env_reload_fails :: env where
  "env_reload_fails = env0\<lparr>fails := (\<lambda>c. c = TicketGetByID)\<rparr>"

definition env_undo_fails :: env where
  "env_undo_fails = env0\<lparr>fails := (\<lambda>c. c = EventUpdateColumn \<or> c = TicketDelete)\<rparr>"

definition env_revert_fails :: env where
  "env_revert_fails = env0\<lparr>fails := (\<lambda>c. c = EventUpdateColumn \<or> c = TicketRevert)\<rparr>"

section \<open>Basic facts\<close>

lemmas storage_defs = First_user_def First_event_def First_ticket_def Create_ticket_def
  Save_ticket_def Delete_ticket_def UpdateColumn_available_def Transaction_def
  UpdateAvailableTickets_def GetTicketByID_def BeforeCreate_def column_defaults_def
  IsAvailable_def
  CanBeCancelled_def Before_def IsZero_def Hour_def Let_def

lemmas example_defs = env0_def env_late_def e1_def s0_def buy3_def t1_def s1_def
  s2_def s_used_def s_leak_def cancel_req_def used_req_def
  env_reload_fails_def env_undo_fails_def env_revert_fails_def
  env0b_def buy6_def t6a_def t6b_def s_first_def s_first_b_def s_oversold_def
  buy0_def t_default_def s_default_def

subsection \<open>Lookups\<close>

lemma find_Some_holds: "find P xs = Some x \<Longrightarrow> P x \<and> x \<in> set xs"
  by (induction xs) (auto split: if_splits)

lemma find_append_new:
  "\<forall>x \<in> set xs. \<not> P x \<Longrightarrow> P y \<Longrightarrow> find P (xs @ [y]) = Some y"
  by (induction xs) auto



lemma find_replace:
  "find (\<lambda>r. Ticket_ID r = k) ts = Some x \<Longrightarrow> Ticket_ID y = k \<Longrightarrow>
     find (\<lambda>r. Ticket_ID r = k) (map (\<lambda>r. if Ticket_ID r = k then y else r) ts) = Some y"
  by (induction ts) (auto split: if_splits)


lemma available_adjust:
  "map_option Available (find (\<lambda>e. Event_ID e = eid) (adjust eid d es)) =
     map_option (\<lambda>a. a + d) (map_option Available (find (\<lambda>e. Event_ID e = eid) es))"
  by (induction es) (auto simp: adjust_def)

lemma adjust_absent: "find (\<lambda>e. Event_ID e = eid) es = None \<Longrightarrow> adjust eid d es = es"
  by (induction es) (auto simp: adjust_def split: if_splits)

subsection \<open>Transactions\<close>

lemma Transaction_Inr:
  "Transaction ev body s = (Inr x, s') \<longleftrightarrow>
     \<not> fails ev TxBegin \<and> \<not> fails ev TxCommit \<and> body s = (Inr x, s')"
  by (auto simp: Transaction_def split: prod.splits sum.splits)

lemma Transaction_Inl: "Transaction ev body s = (Inl e, s') \<Longrightarrow> s' = s"
  by (auto simp: Transaction_def split: prod.splits sum.splits if_splits)

subsection \<open>What a successful purchase did, and when a purchase succeeds\<close>

lemma BuyTicket_tx_Inr:
  assumes "BuyTicket_tx ev userID req s = (Inr t, s')"
  shows "\<exists>u e. user_row s userID = Some u \<and> IsActive u
           \<and> event_row s (req_EventID req) = Some e \<and> IsAvailable e
           \<and> req_Quantity req \<le> Available e \<and> now1 ev + Hour \<le> EventDate e
           \<and> t = new_ticket ev userID req e
           \<and> uuid ev \<notin> set (map Ticket_ID (tickets s))
           \<and> s' = s\<lparr>tickets := tickets s @ [t],
                    events := adjust (req_EventID req) (- req_Quantity req) (events s)\<rparr>"
  using assms
  by (auto simp: BuyTicket_tx_def First_user_def First_event_def Create_ticket_def
      UpdateColumn_available_def BeforeCreate_def column_defaults_def Before_def Let_def
        new_ticket_def adjust_def
      user_row_def event_row_def
      split: sum.splits option.splits if_splits prod.splits)


lemma BuyTicket_succeeds:
  assumes nf: "no_fault ev"
    and u: "user_row s userID = Some u" "IsActive u"
    and e: "event_row s (req_EventID req) = Some e" "IsAvailable e"
    and q: "req_Quantity req \<le> Available e"
    and d: "now1 ev + Hour \<le> EventDate e"
    and fresh: "uuid ev \<notin> set (map Ticket_ID (tickets s))"
  shows "BuyTicket ev userID req s =
           (Inr (new_ticket ev userID req e),
            s\<lparr>tickets := tickets s @ [new_ticket ev userID req e],
              events := adjust (req_EventID req) (- req_Quantity req) (events s)\<rparr>)"
proof -
  let ?t = "new_ticket ev userID req e"
  let ?s' = "s\<lparr>tickets := tickets s @ [?t],
              events := adjust (req_EventID req) (- req_Quantity req) (events s)\<rparr>"
  have body: "BuyTicket_tx ev userID req s = (Inr ?t, ?s')"
    using assms
    by (simp add: BuyTicket_tx_def First_user_def First_event_def Create_ticket_def
        UpdateColumn_available_def BeforeCreate_def column_defaults_def Before_def Let_def
        new_ticket_def adjust_def
        user_row_def event_row_def no_fault_def)
  have tx: "Transaction ev (BuyTicket_tx ev userID req) s = (Inr ?t, ?s')"
    using nf body by (simp add: Transaction_Inr no_fault_def)
  have "find (\<lambda>r. Ticket_ID r = uuid ev) (tickets s @ [?t]) = Some ?t"
    using fresh by (intro find_append_new) (force simp: new_ticket_def)+
  then have rd: "GetTicketByID ev (Ticket_ID ?t) ?s' = Inr ?t"
    using nf by (simp add: GetTicketByID_def First_ticket_def no_fault_def new_ticket_def)
  show ?thesis
    by (simp add: BuyTicket_def tx rd)
qed

lemma buy3_s0: "BuyTicket env0 ''u1'' buy3 s0 = (Inr t1, s1)"
  by (simp add: BuyTicket_def BuyTicket_tx_def storage_defs example_defs)

lemma BuyTicket_insufficient:
  assumes "\<not> fails ev TxBegin" "\<not> fails ev UserGetByID" "\<not> fails ev EventFirst"
    and "user_row s userID = Some u" "IsActive u"
    and "event_row s (req_EventID req) = Some e" "IsAvailable e"
    and "Available e < req_Quantity req"
  shows "BuyTicket ev userID req s = (Inl ErrInsufficientTickets, s)"
proof -
  have "BuyTicket_tx ev userID req s = (Inl ErrInsufficientTickets, s)"
    using assms
    by (simp add: BuyTicket_tx_def First_user_def First_event_def user_row_def event_row_def)
  with assms(1) show ?thesis
    by (simp add: BuyTicket_def Transaction_def)
qed

subsection \<open>Cancellation\<close>

lemma CancelTicket_Inl: "CancelTicket ev ticketID userID s = (Inl e, s') \<Longrightarrow> s' = s"
  unfolding CancelTicket_def by (rule Transaction_Inl)


subsection \<open>Every outcome of the transactional calls\<close>

text \<open>
  Whatever \<^verbatim>\<open>BuyTicket\<close>, \<^verbatim>\<open>CancelTicket\<close> and \<^verbatim>\<open>UpdateTicketStatus\<close> return, the
  database is either the one they were given or the one with the whole effect applied.
\<close>

lemma BuyTicket_state:
  assumes "BuyTicket ev userID req s = (r, s')"
  shows "s' = s
       \<or> (\<exists>e. event_row s (req_EventID req) = Some e
              \<and> uuid ev \<notin> set (map Ticket_ID (tickets s))
              \<and> s' = s\<lparr>tickets := tickets s @ [new_ticket ev userID req e],
                       events := adjust (req_EventID req) (- req_Quantity req) (events s)\<rparr>)"
proof -
  obtain r1 s1 where tr: "Transaction ev (BuyTicket_tx ev userID req) s = (r1, s1)"
    by (cases "Transaction ev (BuyTicket_tx ev userID req) s")
  show ?thesis
  proof (cases r1)
    case (Inl e)
    with tr have "s1 = s" by (auto dest: Transaction_Inl)
    with assms tr Inl show ?thesis by (simp add: BuyTicket_def)
  next
    case (Inr t0)
    with tr have "BuyTicket_tx ev userID req s = (Inr t0, s1)" by (simp add: Transaction_Inr)
    from BuyTicket_tx_Inr [OF this] assms tr Inr show ?thesis
      by (auto simp: BuyTicket_def)
  qed
qed

lemma CancelTicket_tx_Inr:
  assumes "CancelTicket_tx ev ticketID userID s = (Inr t', s')"
  shows "\<exists>t. ticket_row s ticketID = Some t \<and> Ticket_Status t = TicketStatusActive
           \<and> t' = t\<lparr>Ticket_Status := TicketStatusCancelled\<rparr>
           \<and> s' = s\<lparr>tickets := map (\<lambda>r. if Ticket_ID r = ticketID then t' else r) (tickets s),
                    events := adjust (EventID t) (Quantity t) (events s)\<rparr>"
proof -
  from assms obtain t where t: "ticket_row s ticketID = Some t"
    by (cases "ticket_row s ticketID")
       (auto simp: CancelTicket_tx_def First_ticket_def ticket_row_def split: if_splits)
  then have id: "Ticket_ID t = ticketID" and mem: "t \<in> set (tickets s)"
    by (auto simp: ticket_row_def dest: find_Some_holds)
  from mem id have key: "ticketID \<in> Ticket_ID ` set (tickets s)" by force
  from assms t id key show ?thesis
    by (auto simp: CancelTicket_tx_def First_ticket_def First_event_def Save_ticket_def
        UpdateColumn_available_def CanBeCancelled_def Let_def adjust_def ticket_row_def
        split: if_splits sum.splits)
qed


lemma CancelTicket_state:
  assumes "CancelTicket ev ticketID userID s = (r, s')"
  shows "s' = s
       \<or> (\<exists>t. ticket_row s ticketID = Some t \<and> Ticket_Status t = TicketStatusActive
              \<and> r = Inr (t\<lparr>Ticket_Status := TicketStatusCancelled\<rparr>)
              \<and> s' = s\<lparr>tickets := map (\<lambda>r. if Ticket_ID r = ticketID
                                 then t\<lparr>Ticket_Status := TicketStatusCancelled\<rparr> else r)
                               (tickets s),
                       events := adjust (EventID t) (Quantity t) (events s)\<rparr>)"
proof (cases r)
  case (Inl e)
  with assms show ?thesis by (auto dest: CancelTicket_Inl)
next
  case (Inr t')
  with assms have "CancelTicket_tx ev ticketID userID s = (Inr t', s')"
    by (simp add: CancelTicket_def Transaction_Inr)
  from CancelTicket_tx_Inr [OF this] Inr show ?thesis by auto
qed

lemma UpdateTicketStatus_state:
  assumes "UpdateTicketStatus ev ticketID req s = (r, s')"
  shows "s' = s
       \<or> (\<exists>t. ticket_row s ticketID = Some t
              \<and> Ticket_Status t \<noteq> TicketStatusCancelled
              \<and> (req_Status req = TicketStatusUsed \<longrightarrow> Ticket_Status t = TicketStatusActive)
              \<and> s' = s\<lparr>tickets := map (\<lambda>r. if Ticket_ID r = ticketID
                                 then t\<lparr>Ticket_Status := req_Status req\<rparr> else r)
                               (tickets s)\<rparr>)"
proof (cases "ticket_row s ticketID")
  case None
  with assms show ?thesis
    by (auto simp: UpdateTicketStatus_def GetTicketByID_def First_ticket_def ticket_row_def
        split: if_splits)
next
  case (Some t)
  then have id: "Ticket_ID t = ticketID" and mem: "t \<in> set (tickets s)"
    by (auto simp: ticket_row_def dest: find_Some_holds)
  from mem id have key: "ticketID \<in> Ticket_ID ` set (tickets s)" by force
  from assms Some id key show ?thesis
    by (auto simp: UpdateTicketStatus_def GetTicketByID_def First_ticket_def Save_ticket_def
        Let_def ticket_row_def split: if_splits)
qed

subsection \<open>Capacity conservation\<close>

text \<open>
  A purchase of a quantity other than 0, a cancellation by the owner and marking a ticket
  used keep every event row conserved (the last two on a ticket table with unique IDs,
  which all three maintain).
\<close>

lemma conserved_iff:
  "conserved s \<longleftrightarrow> (\<forall>e \<in> set (events s). Available e + held s (Event_ID e) = Capacity e)"
  by (simp add: conserved_def list_all_iff)

lemma sum_filter_units:
  "sum_list (map Quantity (filter P ts)) = sum_list (map (\<lambda>t. if P t then Quantity t else 0) ts)"
  by (induction ts) auto

lemma held_units: "held s eid = sum_list (map (units eid) (tickets s))"
proof -
  have "units eid = (\<lambda>t. if EventID t = eid \<and> holds_capacity t then Quantity t else 0)"
    by (rule ext) (simp add: units_def)
  then show ?thesis by (simp add: held_def sum_filter_units)
qed

lemma sum_replace_row:
  fixes f :: "ticket \<Rightarrow> int"
  assumes "distinct (map Ticket_ID ts)" and "t \<in> set ts"
  shows "sum_list (map f (map (\<lambda>r. if Ticket_ID r = Ticket_ID t then t' else r) ts)) =
           sum_list (map f ts) - f t + f t'"
  using assms
proof (induction ts)
  case Nil
  then show ?case by simp
next
  case (Cons r ts)
  show ?case
  proof (cases "r = t")
    case True
    with Cons.prems have "Ticket_ID t \<notin> Ticket_ID ` set ts" by simp
    then have "map (\<lambda>r. if Ticket_ID r = Ticket_ID t then t' else r) ts = ts"
      by (intro map_idI) (auto simp: image_iff)
    with True show ?thesis by simp
  next
    case False
    with Cons.prems have mem: "t \<in> set ts" and d: "distinct (map Ticket_ID ts)"
      and ne: "Ticket_ID r \<noteq> Ticket_ID t"
      by auto
    from Cons.IH [OF d mem] ne show ?thesis by simp
  qed
qed

lemma BuyTicket_conserved:
  assumes inv: "conserved s" and nz: "req_Quantity req \<noteq> 0"
    and run: "BuyTicket ev userID req s = (r, s')"
  shows "conserved s'"
proof -
  from BuyTicket_state [OF run] show ?thesis
  proof
    assume "s' = s" with inv show ?thesis by simp
  next
    assume "\<exists>e. event_row s (req_EventID req) = Some e
              \<and> uuid ev \<notin> set (map Ticket_ID (tickets s))
              \<and> s' = s\<lparr>tickets := tickets s @ [new_ticket ev userID req e],
                       events := adjust (req_EventID req) (- req_Quantity req) (events s)\<rparr>"
    then obtain e where
      s': "s' = s\<lparr>tickets := tickets s @ [new_ticket ev userID req e],
                    events := adjust (req_EventID req) (- req_Quantity req) (events s)\<rparr>"
      by blast
    have h: "held s' eid = held s eid + (if req_EventID req = eid then req_Quantity req else 0)"
      for eid
      using nz by (simp add: s' held_def new_ticket_def holds_capacity_def)
    have es: "events s' = adjust (req_EventID req) (- req_Quantity req) (events s)"
      by (simp add: s')
    show ?thesis
      unfolding conserved_iff es adjust_def
    proof
      fix e'
      assume "e' \<in> set (map (\<lambda>e. if Event_ID e = req_EventID req
                then e\<lparr>Available := Available e + - req_Quantity req\<rparr> else e) (events s))"
      then obtain e0 where e0: "e0 \<in> set (events s)"
        and e': "e' = (if Event_ID e0 = req_EventID req
                then e0\<lparr>Available := Available e0 + - req_Quantity req\<rparr> else e0)"
        by auto
      from inv e0 have "Available e0 + held s (Event_ID e0) = Capacity e0"
        by (simp add: conserved_iff)
      then show "Available e' + held s' (Event_ID e') = Capacity e'"
        by (cases "Event_ID e0 = req_EventID req") (auto simp: e' h)
    qed
  qed
qed

lemma CancelTicket_conserved:
  assumes inv: "conserved s" and uniq: "unique_ticket_ids s"
    and run: "CancelTicket ev ticketID userID s = (r, s')"
  shows "conserved s'"
proof -
  from CancelTicket_state [OF run] show ?thesis
  proof
    assume "s' = s" with inv show ?thesis by simp
  next
    assume "\<exists>t. ticket_row s ticketID = Some t \<and> Ticket_Status t = TicketStatusActive
              \<and> r = Inr (t\<lparr>Ticket_Status := TicketStatusCancelled\<rparr>)
              \<and> s' = s\<lparr>tickets := map (\<lambda>r. if Ticket_ID r = ticketID
                                 then t\<lparr>Ticket_Status := TicketStatusCancelled\<rparr> else r)
                               (tickets s),
                       events := adjust (EventID t) (Quantity t) (events s)\<rparr>"
    then obtain t where row: "ticket_row s ticketID = Some t"
      and act: "Ticket_Status t = TicketStatusActive"
      and s': "s' = s\<lparr>tickets := map (\<lambda>r. if Ticket_ID r = ticketID
                                 then t\<lparr>Ticket_Status := TicketStatusCancelled\<rparr> else r)
                               (tickets s),
                       events := adjust (EventID t) (Quantity t) (events s)\<rparr>"
      by blast
    from row have id: "Ticket_ID t = ticketID" and mem: "t \<in> set (tickets s)"
      by (auto simp: ticket_row_def dest: find_Some_holds)
    have h: "held s' eid = held s eid - (if EventID t = eid then Quantity t else 0)" for eid
      using sum_replace_row [of "tickets s" t "units eid"
          "t\<lparr>Ticket_Status := TicketStatusCancelled\<rparr>"] uniq mem act
      by (simp add: held_units s' id unique_ticket_ids_def units_def holds_capacity_def)
    have es: "events s' = adjust (EventID t) (Quantity t) (events s)"
      by (simp add: s')
    show ?thesis
      unfolding conserved_iff es adjust_def
    proof
      fix e'
      assume "e' \<in> set (map (\<lambda>e. if Event_ID e = EventID t
                then e\<lparr>Available := Available e + Quantity t\<rparr> else e) (events s))"
      then obtain e0 where e0: "e0 \<in> set (events s)"
        and e': "e' = (if Event_ID e0 = EventID t
                then e0\<lparr>Available := Available e0 + Quantity t\<rparr> else e0)"
        by auto
      from inv e0 have "Available e0 + held s (Event_ID e0) = Capacity e0"
        by (simp add: conserved_iff)
      then show "Available e' + held s' (Event_ID e') = Capacity e'"
        by (cases "Event_ID e0 = EventID t") (auto simp: e' h)
    qed
  qed
qed

lemma UpdateTicketStatus_used_conserved:
  assumes inv: "conserved s" and uniq: "unique_ticket_ids s"
    and req: "req_Status req = TicketStatusUsed"
    and run: "UpdateTicketStatus ev ticketID req s = (r, s')"
  shows "conserved s'"
proof -
  from UpdateTicketStatus_state [OF run] show ?thesis
  proof
    assume "s' = s" with inv show ?thesis by simp
  next
    assume "\<exists>t. ticket_row s ticketID = Some t
              \<and> Ticket_Status t \<noteq> TicketStatusCancelled
              \<and> (req_Status req = TicketStatusUsed \<longrightarrow> Ticket_Status t = TicketStatusActive)
              \<and> s' = s\<lparr>tickets := map (\<lambda>r. if Ticket_ID r = ticketID
                                 then t\<lparr>Ticket_Status := req_Status req\<rparr> else r)
                               (tickets s)\<rparr>"
    with req obtain t where row: "ticket_row s ticketID = Some t"
      and act: "Ticket_Status t = TicketStatusActive"
      and s': "s' = s\<lparr>tickets := map (\<lambda>r. if Ticket_ID r = ticketID
                                 then t\<lparr>Ticket_Status := TicketStatusUsed\<rparr> else r)
                               (tickets s)\<rparr>"
      by auto
    from row have id: "Ticket_ID t = ticketID" and mem: "t \<in> set (tickets s)"
      by (auto simp: ticket_row_def dest: find_Some_holds)
    have h: "held s' eid = held s eid" for eid
      using sum_replace_row [of "tickets s" t "units eid"
          "t\<lparr>Ticket_Status := TicketStatusUsed\<rparr>"] uniq mem act
      by (simp add: held_units s' id unique_ticket_ids_def units_def holds_capacity_def)
    have "events s' = events s" by (simp add: s')
    with inv h show ?thesis by (simp add: conserved_iff)
  qed
qed

lemma replace_keeps_ids:
  "Ticket_ID t' = tid \<Longrightarrow>
     map Ticket_ID (map (\<lambda>r. if Ticket_ID r = tid then t' else r) ts) = map Ticket_ID ts"
  by (induction ts) auto

lemma BuyTicket_unique:
  assumes "unique_ticket_ids s" and "BuyTicket ev userID req s = (r, s')"
  shows "unique_ticket_ids s'"
  using BuyTicket_state [OF assms(2)] assms(1)
  by (auto simp: unique_ticket_ids_def new_ticket_def)

lemma CancelTicket_unique:
  assumes "unique_ticket_ids s" and "CancelTicket ev ticketID userID s = (r, s')"
  shows "unique_ticket_ids s'"
proof -
  from CancelTicket_state [OF assms(2)] show ?thesis
  proof
    assume "s' = s" with assms(1) show ?thesis by simp
  next
    assume "\<exists>t. ticket_row s ticketID = Some t \<and> Ticket_Status t = TicketStatusActive
              \<and> r = Inr (t\<lparr>Ticket_Status := TicketStatusCancelled\<rparr>)
              \<and> s' = s\<lparr>tickets := map (\<lambda>r. if Ticket_ID r = ticketID
                                 then t\<lparr>Ticket_Status := TicketStatusCancelled\<rparr> else r)
                               (tickets s),
                       events := adjust (EventID t) (Quantity t) (events s)\<rparr>"
    then obtain t where row: "ticket_row s ticketID = Some t"
      and s': "tickets s' = map (\<lambda>r. if Ticket_ID r = ticketID
                                 then t\<lparr>Ticket_Status := TicketStatusCancelled\<rparr> else r)
                               (tickets s)"
      by auto
    from row have "Ticket_ID (t\<lparr>Ticket_Status := TicketStatusCancelled\<rparr>) = ticketID"
      by (auto simp: ticket_row_def dest: find_Some_holds)
    then have "map Ticket_ID (tickets s') = map Ticket_ID (tickets s)"
      unfolding s' by (rule replace_keeps_ids)
    with assms(1) show ?thesis
      by (simp add: unique_ticket_ids_def)
  qed
qed

lemma UpdateTicketStatus_unique:
  assumes "unique_ticket_ids s" and "UpdateTicketStatus ev ticketID req s = (r, s')"
  shows "unique_ticket_ids s'"
proof -
  from UpdateTicketStatus_state [OF assms(2)] show ?thesis
  proof
    assume "s' = s" with assms(1) show ?thesis by simp
  next
    assume "\<exists>t. ticket_row s ticketID = Some t
              \<and> Ticket_Status t \<noteq> TicketStatusCancelled
              \<and> (req_Status req = TicketStatusUsed \<longrightarrow> Ticket_Status t = TicketStatusActive)
              \<and> s' = s\<lparr>tickets := map (\<lambda>r. if Ticket_ID r = ticketID
                                 then t\<lparr>Ticket_Status := req_Status req\<rparr> else r)
                               (tickets s)\<rparr>"
    then obtain t where row: "ticket_row s ticketID = Some t"
      and s': "tickets s' = map (\<lambda>r. if Ticket_ID r = ticketID
                                 then t\<lparr>Ticket_Status := req_Status req\<rparr> else r)
                               (tickets s)"
      by auto
    from row have "Ticket_ID (t\<lparr>Ticket_Status := req_Status req\<rparr>) = ticketID"
      by (auto simp: ticket_row_def dest: find_Some_holds)
    then have "map Ticket_ID (tickets s') = map Ticket_ID (tickets s)"
      unfolding s' by (rule replace_keeps_ids)
    with assms(1) show ?thesis
      by (simp add: unique_ticket_ids_def)
  qed
qed

subsection \<open>The purchase without transaction, in two halves\<close>

lemma BuyTicket_unlocked_split:
  "BuyTicket_unlocked ev userID req s =
     (case BuyTicket_unlocked_check ev userID req s of
        Inl e \<Rightarrow> (Inl e, s)
      | Inr t \<Rightarrow> BuyTicket_unlocked_write ev req t s)"
  by (simp add: BuyTicket_unlocked_def BuyTicket_unlocked_check_def
      BuyTicket_unlocked_write_def Let_def split: sum.split)

subsection \<open>A purchase of quantity 0\<close>

text \<open>
  The request type declares a minimum of 1 for the quantity, but the service itself takes
  any. A request for 0 units passes the checks, takes nothing from \<open>available\<close> and
  creates a ticket of quantity 1 at price 0, so the event row is no longer conserved.
\<close>

lemma BuyTicket_quantity_zero:
  "BuyTicket env0 ''u1'' buy0 s0 = (Inr t_default, s_default)
   \<and> Quantity t_default = 1 \<and> available_of s_default ''e1'' = Some 10
   \<and> \<not> conserved s_default"
  by (simp add: BuyTicket_def BuyTicket_tx_def storage_defs example_defs conserved_def
      held_def holds_capacity_def available_of_def event_row_def)

section \<open>Claims\<close>

text \<open>
  C1 (capacity conservation): for every event, \<open>available\<close> plus the quantities of its
  active and used tickets is its capacity, and every operation keeps it so. A purchase
  of a quantity other than 0, a cancellation by the owner and marking a ticket used do
  keep it (the lemmas on capacity conservation above). Cancelling through \<^verbatim>\<open>UpdateTicketStatus\<close> does not: the equality
  holds in the initial database and after a purchase of 3 units, and is broken once the
  status update has cancelled that ticket, which then holds no units while \<open>available\<close>
  stays 7 of a capacity of 10.
\<close>

theorem status_cancel_breaks_conservation:
  "conserved s0 \<and> BuyTicket env0 ''u1'' buy3 s0 = (Inr t1, s1) \<and> conserved s1
   \<and> UpdateTicketStatus env0 ''t1'' cancel_req s1 =
       (Inr (t1\<lparr>Ticket_Status := TicketStatusCancelled\<rparr>), s_leak)
   \<and> available_of s_leak ''e1'' = Some 7 \<and> held s_leak ''e1'' = 0 \<and> Capacity e1 = 10
   \<and> \<not> conserved s_leak"
proof -
  have "UpdateTicketStatus env0 ''t1'' cancel_req s1 =
       (Inr (t1\<lparr>Ticket_Status := TicketStatusCancelled\<rparr>), s_leak)"
    by (simp add: UpdateTicketStatus_def storage_defs example_defs)
  moreover have "conserved s0" "conserved s1" "\<not> conserved s_leak"
    "available_of s_leak ''e1'' = Some 7" "held s_leak ''e1'' = 0" "Capacity e1 = 10"
    by (simp_all add: conserved_def held_def holds_capacity_def available_of_def event_row_def
        example_defs)
  ultimately show ?thesis using buy3_s0 by simp
qed

text \<open>
  C2 (no oversell under concurrency). In the purchase without transaction the capacity
  check and the decrement are separate repository calls. With 10 units available, two
  purchases of 6 whose reads both come before either write both succeed: 12 units are
  sold and \<open>available\<close> ends at -2. Run one after the other, in either order of the
  two, the first succeeds and the second is refused with \<open>available = 4\<close>, so the
  interleaved outcome is that of no serial order.
\<close>

theorem unlocked_purchases_oversell:
  "available_of s0 ''e1'' = Some 10
   \<and> BuyTicket_unlocked_interleaved env0 ''u1'' buy6 env0b ''u1'' buy6 s0 =
       ((Inr t6a, Inr t6b), s_oversold)
   \<and> Quantity t6a + Quantity t6b = 12
   \<and> available_of s_oversold ''e1'' = Some (- 2)
   \<and> BuyTicket_unlocked env0 ''u1'' buy6 s0 = (Inr t6a, s_first)
   \<and> BuyTicket_unlocked env0b ''u1'' buy6 s_first = (Inl ErrInsufficientTickets, s_first)
   \<and> available_of s_first ''e1'' = Some 4
   \<and> BuyTicket_unlocked env0b ''u1'' buy6 s0 = (Inr t6b, s_first_b)
   \<and> BuyTicket_unlocked env0 ''u1'' buy6 s_first_b = (Inl ErrInsufficientTickets, s_first_b)
   \<and> available_of s_first_b ''e1'' = Some 4"
proof -
  have run: "BuyTicket_unlocked_interleaved env0 ''u1'' buy6 env0b ''u1'' buy6 s0 =
       ((Inr t6a, Inr t6b), s_oversold)"
    by (simp add: BuyTicket_unlocked_interleaved_def BuyTicket_unlocked_check_def
        BuyTicket_unlocked_write_def storage_defs example_defs)
  have serial: "BuyTicket_unlocked env0 ''u1'' buy6 s0 = (Inr t6a, s_first)"
    "BuyTicket_unlocked env0b ''u1'' buy6 s_first = (Inl ErrInsufficientTickets, s_first)"
    "BuyTicket_unlocked env0b ''u1'' buy6 s0 = (Inr t6b, s_first_b)"
    "BuyTicket_unlocked env0 ''u1'' buy6 s_first_b = (Inl ErrInsufficientTickets, s_first_b)"
    by (simp_all add: BuyTicket_unlocked_def storage_defs example_defs)
  have "available_of s0 ''e1'' = Some 10" "available_of s_oversold ''e1'' = Some (- 2)"
    "available_of s_first ''e1'' = Some 4" "available_of s_first_b ''e1'' = Some 4"
    "Quantity t6a + Quantity t6b = 12"
    by (simp_all add: available_of_def event_row_def example_defs)
  with run serial show ?thesis by simp
qed

text \<open>
  C3 (boundary purchase). With storage working and a fresh UUID, for an active user and an
  active event that is at least one hour away and has \<open>available = A > 0\<close>: buying
  exactly \<open>A\<close> units succeeds and leaves \<open>available = 0\<close>; buying \<open>A + 1\<close> units
  fails with "insufficient tickets available" and returns the database unchanged.
\<close>

theorem boundary_purchase:
  assumes nf: "no_fault ev"
    and u: "user_row s userID = Some u" "IsActive u"
    and e: "event_row s eventID = Some e" "Event_Status e = EventStatusActive"
           "0 < Available e"
    and d: "now1 ev + Hour \<le> EventDate e"
    and fresh: "uuid ev \<notin> set (map Ticket_ID (tickets s))"
  shows "(\<exists>t s'. BuyTicket ev userID
                    \<lparr>req_EventID = eventID, req_Quantity = Available e\<rparr> s = (Inr t, s')
            \<and> Quantity t = Available e \<and> available_of s' eventID = Some 0)
       \<and> BuyTicket ev userID \<lparr>req_EventID = eventID, req_Quantity = Available e + 1\<rparr> s =
           (Inl ErrInsufficientTickets, s)"
proof -
  let ?all = "\<lparr>req_EventID = eventID, req_Quantity = Available e\<rparr>"
  let ?more = "\<lparr>req_EventID = eventID, req_Quantity = Available e + 1\<rparr>"
  have av: "IsAvailable e" using e by (simp add: IsAvailable_def)
  let ?t = "new_ticket ev userID ?all e"
  let ?s' = "s\<lparr>tickets := tickets s @ [?t],
               events := adjust (req_EventID ?all) (- req_Quantity ?all) (events s)\<rparr>"
  have ok: "BuyTicket ev userID ?all s = (Inr ?t, ?s')"
    using e(1) d by (intro BuyTicket_succeeds [OF nf u _ av _ _ fresh]) simp_all
  have "available_of s eventID = Some (Available e)"
    using e(1) by (simp add: available_of_def)
  then have zero: "available_of ?s' eventID = Some 0"
    by (simp add: available_of_def event_row_def available_adjust)
  have q: "Quantity ?t = Available e" using e(3) by (simp add: new_ticket_def)
  have no: "BuyTicket ev userID ?more s = (Inl ErrInsufficientTickets, s)"
    using nf e(1) by (intro BuyTicket_insufficient [OF _ _ _ u _ av]) (simp_all add: no_fault_def)
  from ok zero q no show ?thesis by blast
qed

theorem boundary_purchase_witness:
  "(\<exists>t s'. BuyTicket env0 ''u1'' \<lparr>req_EventID = ''e1'', req_Quantity = 10\<rparr> s0 = (Inr t, s')
       \<and> Quantity t = 10 \<and> available_of s' ''e1'' = Some 0)
   \<and> BuyTicket env0 ''u1'' \<lparr>req_EventID = ''e1'', req_Quantity = 11\<rparr> s0 =
       (Inl ErrInsufficientTickets, s0)"
proof -
  have nf: "no_fault env0" by (simp add: no_fault_def env0_def)
  have u: "user_row s0 ''u1'' = Some \<lparr>User_ID = ''u1'', IsActive = True\<rparr>"
    by (simp add: user_row_def s0_def)
  have e: "event_row s0 ''e1'' = Some e1" by (simp add: event_row_def s0_def e1_def)
  have d: "now1 env0 + Hour \<le> EventDate e1" by (simp add: env0_def e1_def Hour_def)
  have fresh: "uuid env0 \<notin> set (map Ticket_ID (tickets s0))" by (simp add: s0_def)
  have a: "Available e1 = 10" by (simp add: e1_def)
  from boundary_purchase [OF nf u _ e _ _ d fresh] show ?thesis
    by (simp add: a) (simp add: e1_def)
qed





text \<open>
  C6 (all or nothing). Three runs in which the caller gets an error although the database
  has changed. In the transactional purchase the read after the commit fails: the error is
  returned with the ticket created and the units taken. In the variant without
  transaction the capacity update fails and so does the compensating write, whose own
  error the source drops: the purchase leaves a ticket with no units taken, the
  cancellation leaves a cancelled ticket with no units returned.
\<close>

theorem error_with_partial_effect:
  "BuyTicket env_reload_fails ''u1'' buy3 s0 = (Inl (ErrStorage TicketGetByID), s1)
   \<and> BuyTicket_unlocked env_undo_fails ''u1'' buy3 s0 =
       (Inl (ErrStorage EventUpdateColumn), s0\<lparr>tickets := [t1]\<rparr>)
   \<and> CancelTicket_unlocked env_revert_fails ''t1'' ''u1'' s1 =
       (Inl (ErrStorage EventUpdateColumn), s_leak)"
  by (simp add: BuyTicket_def BuyTicket_tx_def BuyTicket_unlocked_def CancelTicket_unlocked_def
      storage_defs example_defs)

text \<open>
  C7 (status transitions), as amended. For a request to mark a ticket used or cancelled,
  on an existing ticket and with storage working: the update succeeds and stores the
  requested status when the ticket is active, and also when a used or expired ticket is
  to be cancelled; any request on a cancelled ticket fails with "cannot update cancelled
  ticket", and marking a used or expired ticket used fails with "can only mark active
  tickets as used", both with the database unchanged.
\<close>

theorem UpdateTicketStatus_transitions:
  assumes "\<not> fails ev TicketGetByID" "\<not> fails ev TicketUpdate"
    and row: "ticket_row s ticketID = Some t"
    and req: "req_Status req = TicketStatusUsed \<or> req_Status req = TicketStatusCancelled"
  shows "(Ticket_Status t = TicketStatusActive
            \<or> (req_Status req = TicketStatusCancelled \<and> Ticket_Status t \<noteq> TicketStatusCancelled)
          \<longrightarrow> (\<exists>s'. UpdateTicketStatus ev ticketID req s =
                        (Inr (t\<lparr>Ticket_Status := req_Status req\<rparr>), s')
                  \<and> ticket_row s' ticketID = Some (t\<lparr>Ticket_Status := req_Status req\<rparr>)))
       \<and> (Ticket_Status t = TicketStatusCancelled
          \<longrightarrow> UpdateTicketStatus ev ticketID req s = (Inl ErrCancelledTicket, s))
       \<and> (req_Status req = TicketStatusUsed
            \<and> (Ticket_Status t = TicketStatusUsed \<or> Ticket_Status t = TicketStatusExpired)
          \<longrightarrow> UpdateTicketStatus ev ticketID req s = (Inl ErrUsedNotActive, s))"
proof -
  from row have id: "Ticket_ID t = ticketID" and mem: "t \<in> set (tickets s)"
    by (auto simp: ticket_row_def dest: find_Some_holds)
  from mem id have key: "ticketID \<in> Ticket_ID ` set (tickets s)" by force
  have get: "GetTicketByID ev ticketID s = Inr t"
    using assms(1) row by (simp add: GetTicketByID_def First_ticket_def ticket_row_def)
  let ?t' = "t\<lparr>Ticket_Status := req_Status req\<rparr>"
  let ?s' = "s\<lparr>tickets := map (\<lambda>r. if Ticket_ID r = ticketID then ?t' else r) (tickets s)\<rparr>"
  have save: "Save_ticket ev TicketUpdate ?t' s = Inr ?s'"
    using assms(2) id key by (simp add: Save_ticket_def)
  have row': "ticket_row ?s' ticketID = Some ?t'"
    using row id by (simp add: ticket_row_def find_replace)
  have ok: "UpdateTicketStatus ev ticketID req s = (Inr ?t', ?s')"
    if "Ticket_Status t = TicketStatusActive
        \<or> (req_Status req = TicketStatusCancelled \<and> Ticket_Status t \<noteq> TicketStatusCancelled)"
    using that by (auto simp: UpdateTicketStatus_def get save Let_def)
  have c: "UpdateTicketStatus ev ticketID req s = (Inl ErrCancelledTicket, s)"
    if "Ticket_Status t = TicketStatusCancelled"
    using that by (simp add: UpdateTicketStatus_def get)
  have u: "UpdateTicketStatus ev ticketID req s = (Inl ErrUsedNotActive, s)"
    if "req_Status req = TicketStatusUsed"
       "Ticket_Status t = TicketStatusUsed \<or> Ticket_Status t = TicketStatusExpired"
    using that by (auto simp: UpdateTicketStatus_def get)
  from ok row' c u show ?thesis by blast
qed

theorem UpdateTicketStatus_transitions_witness:
  "UpdateTicketStatus env0 ''t1'' used_req s1 =
     (Inr (t1\<lparr>Ticket_Status := TicketStatusUsed\<rparr>), s_used)
   \<and> UpdateTicketStatus env0 ''t1'' cancel_req s1 =
     (Inr (t1\<lparr>Ticket_Status := TicketStatusCancelled\<rparr>), s_leak)
   \<and> UpdateTicketStatus env0 ''t1'' used_req s_used = (Inl ErrUsedNotActive, s_used)
   \<and> UpdateTicketStatus env0 ''t1'' used_req s_leak = (Inl ErrCancelledTicket, s_leak)
   \<and> UpdateTicketStatus env0 ''t1'' cancel_req s_leak = (Inl ErrCancelledTicket, s_leak)"
proof -
  have f: "\<not> fails env0 TicketGetByID" "\<not> fails env0 TicketUpdate"
    by (simp_all add: env0_def)
  have r1: "ticket_row s1 ''t1'' = Some t1"
    and ru: "ticket_row s_used ''t1'' = Some (t1\<lparr>Ticket_Status := TicketStatusUsed\<rparr>)"
    and rc: "ticket_row s_leak ''t1'' = Some (t1\<lparr>Ticket_Status := TicketStatusCancelled\<rparr>)"
    by (simp_all add: ticket_row_def s1_def s_used_def s_leak_def t1_def)
  have q: "req_Status used_req = TicketStatusUsed \<or> req_Status used_req = TicketStatusCancelled"
    "req_Status cancel_req = TicketStatusUsed \<or> req_Status cancel_req = TicketStatusCancelled"
    by (simp_all add: used_req_def cancel_req_def)
  have st: "Ticket_Status t1 = TicketStatusActive" by (simp add: t1_def)
  from UpdateTicketStatus_transitions [OF f r1 q(1)] st
  obtain sa where a: "UpdateTicketStatus env0 ''t1'' used_req s1 =
      (Inr (t1\<lparr>Ticket_Status := req_Status used_req\<rparr>), sa)"
    by blast
  from UpdateTicketStatus_transitions [OF f r1 q(2)] st
  obtain sb where b: "UpdateTicketStatus env0 ''t1'' cancel_req s1 =
      (Inr (t1\<lparr>Ticket_Status := req_Status cancel_req\<rparr>), sb)"
    by blast
  have sa: "snd (UpdateTicketStatus env0 ''t1'' used_req s1) = s_used"
    and sb: "snd (UpdateTicketStatus env0 ''t1'' cancel_req s1) = s_leak"
    by (simp_all add: UpdateTicketStatus_def storage_defs example_defs)
  from a sa have a': "UpdateTicketStatus env0 ''t1'' used_req s1 =
     (Inr (t1\<lparr>Ticket_Status := TicketStatusUsed\<rparr>), s_used)"
    by (simp add: used_req_def)
  from b sb have b': "UpdateTicketStatus env0 ''t1'' cancel_req s1 =
     (Inr (t1\<lparr>Ticket_Status := TicketStatusCancelled\<rparr>), s_leak)"
    by (simp add: cancel_req_def)
  from UpdateTicketStatus_transitions [OF f ru q(1)]
  have c: "UpdateTicketStatus env0 ''t1'' used_req s_used = (Inl ErrUsedNotActive, s_used)"
    by (simp add: used_req_def)
  from UpdateTicketStatus_transitions [OF f rc q(1)]
  have d: "UpdateTicketStatus env0 ''t1'' used_req s_leak = (Inl ErrCancelledTicket, s_leak)"
    by simp
  from UpdateTicketStatus_transitions [OF f rc q(2)]
  have e: "UpdateTicketStatus env0 ''t1'' cancel_req s_leak = (Inl ErrCancelledTicket, s_leak)"
    by simp
  from a' b' c d e show ?thesis by blast
qed

text \<open>
  C7 as stated fails: a ticket that was marked used can still be moved to cancelled.
\<close>

theorem used_ticket_can_be_cancelled:
  "UpdateTicketStatus env0 ''t1'' used_req s1 =
     (Inr (t1\<lparr>Ticket_Status := TicketStatusUsed\<rparr>), s_used)
   \<and> UpdateTicketStatus env0 ''t1'' cancel_req s_used =
     (Inr (t1\<lparr>Ticket_Status := TicketStatusCancelled\<rparr>), s_leak)"
  by (simp add: UpdateTicketStatus_def storage_defs example_defs)

text \<open>
  C8 (cancellation preconditions). When the transaction starts and the two reads work,
  \<^verbatim>\<open>CancelTicket\<close> rejects, in this order: a ticket that does not exist ("record not
  found"); a ticket of another user, whatever its status ("you can only cancel your own
  tickets"); a ticket that is not active ("ticket cannot be cancelled"); an event that
  starts in less than two hours ("cannot cancel tickets within 2 hours of event start").
  Each rejection returns the database unchanged, so cancelling a cancelled ticket never
  increments \<open>available\<close> a second time.
\<close>

theorem CancelTicket_preconditions:
  assumes "\<not> fails ev TxBegin" "\<not> fails ev TicketFirst" "\<not> fails ev EventFirst"
  shows "(ticket_row s ticketID = None \<longrightarrow>
            CancelTicket ev ticketID userID s = (Inl ErrRecordNotFound, s))
       \<and> (\<forall>t. ticket_row s ticketID = Some t \<and> UserID t \<noteq> userID \<longrightarrow>
            CancelTicket ev ticketID userID s = (Inl ErrNotOwner, s))
       \<and> (\<forall>t. ticket_row s ticketID = Some t \<and> UserID t = userID
              \<and> Ticket_Status t \<noteq> TicketStatusActive \<longrightarrow>
            CancelTicket ev ticketID userID s = (Inl ErrNotCancellable, s))
       \<and> (\<forall>t e. ticket_row s ticketID = Some t \<and> UserID t = userID
              \<and> Ticket_Status t = TicketStatusActive
              \<and> event_row s (EventID t) = Some e \<and> EventDate e < now1 ev + 2 * Hour \<longrightarrow>
            CancelTicket ev ticketID userID s = (Inl ErrCancelTooLate, s))"
  using assms
  by (simp add: CancelTicket_def CancelTicket_tx_def Transaction_def First_ticket_def
      First_event_def ticket_row_def event_row_def CanBeCancelled_def Before_def)

theorem CancelTicket_preconditions_witness:
  "CancelTicket env0 ''t9'' ''u1'' s1 = (Inl ErrRecordNotFound, s1)
   \<and> CancelTicket env0 ''t1'' ''u2'' s1 = (Inl ErrNotOwner, s1)
   \<and> CancelTicket env0 ''t1'' ''u2'' s2 = (Inl ErrNotOwner, s2)
   \<and> CancelTicket env0 ''t1'' ''u1'' s2 = (Inl ErrNotCancellable, s2)
   \<and> CancelTicket env_late ''t1'' ''u1'' s1 = (Inl ErrCancelTooLate, s1)"
proof -
  have f0: "\<not> fails env0 TxBegin" "\<not> fails env0 TicketFirst" "\<not> fails env0 EventFirst"
    by (simp_all add: env0_def)
  have fl: "\<not> fails env_late TxBegin" "\<not> fails env_late TicketFirst"
    "\<not> fails env_late EventFirst"
    by (simp_all add: env_late_def)
  have r9: "ticket_row s1 ''t9'' = None" by (simp add: ticket_row_def s1_def t1_def)
  have r1: "ticket_row s1 ''t1'' = Some t1" by (simp add: ticket_row_def s1_def t1_def)
  have r2: "ticket_row s2 ''t1'' = Some (t1\<lparr>Ticket_Status := TicketStatusCancelled\<rparr>)"
    by (simp add: ticket_row_def s2_def t1_def)
  have ev: "event_row s1 (EventID t1) = Some (e1\<lparr>Available := 7\<rparr>)"
    by (simp add: event_row_def s1_def t1_def e1_def)
  have late: "EventDate (e1\<lparr>Available := 7\<rparr>) < now1 env_late + 2 * Hour"
    by (simp add: e1_def env_late_def Hour_def)
  have own: "UserID t1 = ''u1''" "Ticket_Status t1 = TicketStatusActive"
    by (simp_all add: t1_def)
  from CancelTicket_preconditions [OF f0, of s1 "''t9''" "''u1''"] r9
  have a: "CancelTicket env0 ''t9'' ''u1'' s1 = (Inl ErrRecordNotFound, s1)" by blast
  from CancelTicket_preconditions [OF f0, of s1 "''t1''" "''u2''"] r1 own
  have b: "CancelTicket env0 ''t1'' ''u2'' s1 = (Inl ErrNotOwner, s1)" by simp
  from CancelTicket_preconditions [OF f0, of s2 "''t1''" "''u2''"] r2 own
  have c: "CancelTicket env0 ''t1'' ''u2'' s2 = (Inl ErrNotOwner, s2)" by simp
  from CancelTicket_preconditions [OF f0, of s2 "''t1''" "''u1''"] r2 own
  have d: "CancelTicket env0 ''t1'' ''u1'' s2 = (Inl ErrNotCancellable, s2)" by simp
  from CancelTicket_preconditions [OF fl, of s1 "''t1''" "''u1''"] r1 own ev late
  have e: "CancelTicket env_late ''t1'' ''u1'' s1 = (Inl ErrCancelTooLate, s1)" by simp
  from a b c d e show ?thesis by blast
qed

text \<open>
  C9 (frame property of the status update). Whatever the outcome, \<^verbatim>\<open>UpdateTicketStatus\<close>
  returns the event table it was given, in both variants of the service: no event's
  \<open>available\<close> changes.
\<close>

theorem UpdateTicketStatus_frame:
  "events (snd (UpdateTicketStatus ev ticketID req s)) = events s
   \<and> events (snd (UpdateTicketStatus_unlocked ev ticketID req s)) = events s"
  by (simp add: UpdateTicketStatus_def UpdateTicketStatus_unlocked_def Save_ticket_def Let_def
      split: sum.split)

text \<open>
  C10 (the capacity primitive checks nothing). When the storage call itself does not fail,
  \<^verbatim>\<open>UpdateAvailableTickets\<close> returns no error and subtracts the quantity from
  \<open>available\<close> of the matching rows, whatever the sign or size of the result; when no
  row matches it still returns no error and the database is unchanged. The witness shows
  \<open>available\<close> driven below zero and above the capacity, and the silent no-match.
\<close>

theorem UpdateAvailableTickets_unchecked:
  assumes "\<not> fails ev EventUpdateColumn"
  shows "UpdateAvailableTickets ev eventID quantity s =
           (None, s\<lparr>events := adjust eventID (- quantity) (events s)\<rparr>)
       \<and> available_of (snd (UpdateAvailableTickets ev eventID quantity s)) eventID =
           map_option (\<lambda>a. a - quantity) (available_of s eventID)
       \<and> (event_row s eventID = None \<longrightarrow>
            UpdateAvailableTickets ev eventID quantity s = (None, s))"
proof -
  have run: "UpdateAvailableTickets ev eventID quantity s =
               (None, s\<lparr>events := adjust eventID (- quantity) (events s)\<rparr>)"
    using assms by (simp add: UpdateAvailableTickets_def UpdateColumn_available_def adjust_def)
  have av: "available_of (s\<lparr>events := adjust eventID (- quantity) (events s)\<rparr>) eventID =
              map_option (\<lambda>a. a - quantity) (available_of s eventID)"
    by (simp add: available_of_def event_row_def available_adjust option.map_comp comp_def)
  have "adjust eventID (- quantity) (events s) = events s" if "event_row s eventID = None"
    using that by (simp add: event_row_def adjust_absent)
  with run av show ?thesis by simp
qed

theorem UpdateAvailableTickets_unchecked_witness:
  "available_of (snd (UpdateAvailableTickets env0 ''e1'' 11 s0)) ''e1'' = Some (- 1)
   \<and> available_of (snd (UpdateAvailableTickets env0 ''e1'' (- 1) s0)) ''e1'' = Some 11
   \<and> Capacity e1 = 10
   \<and> UpdateAvailableTickets env0 ''e9'' 5 s0 = (None, s0)"
proof -
  have nf: "\<not> fails env0 EventUpdateColumn" by (simp add: env0_def)
  have absent: "event_row s0 ''e9'' = None" by (simp add: event_row_def example_defs)
  have a0: "available_of s0 ''e1'' = Some 10"
    by (simp add: available_of_def event_row_def example_defs)
  have "available_of (snd (UpdateAvailableTickets env0 ''e1'' 11 s0)) ''e1'' = Some (- 1)"
    using UpdateAvailableTickets_unchecked [OF nf, of "''e1''" 11 s0, THEN conjunct2, THEN conjunct1]
    by (simp add: a0)
  moreover
  have "available_of (snd (UpdateAvailableTickets env0 ''e1'' (- 1) s0)) ''e1'' = Some 11"
    using UpdateAvailableTickets_unchecked [OF nf, of "''e1''" "- 1" s0, THEN conjunct2, THEN conjunct1]
    by (simp add: a0)
  moreover
  have "UpdateAvailableTickets env0 ''e9'' 5 s0 = (None, s0)"
    using UpdateAvailableTickets_unchecked [OF nf, of "''e9''" 5 s0] absent by blast
  moreover have "Capacity e1 = 10" by (simp add: e1_def)
  ultimately show ?thesis by blast
qed

end
